theory Spec2Isabelle
  imports Main "HOL-Library.Word"
begin

section \<open>JavaScript strings and arrays\<close>

text \<open>
  A JavaScript string is a sequence of UTF-16 code units. Literals of the source are
  written through \<open>js\<close>, which reads an ASCII literal as code units.
\<close>

type_synonym code_unit = "16 word"
type_synonym jsstring = "code_unit list"

definition js :: "string \<Rightarrow> jsstring" where
  "js s = map of_char s"

text \<open>
  \<open>String.prototype.trim\<close> strips WhiteSpace and LineTerminator code units from both
  ends: TAB, LF, VT, FF, CR (9 to 13), SP (32), NBSP (160), U+1680 (5760),
  U+2000 to U+200A (8192 to 8202), LS and PS (8232, 8233), U+202F (8239),
  U+205F (8287), U+3000 (12288) and the byte order mark U+FEFF (65279).
\<close>

definition isWhiteSpace :: "code_unit \<Rightarrow> bool" where
  "isWhiteSpace c =
     (let n = unat c in
        (9 \<le> n \<and> n \<le> 13) \<or> n = 32 \<or> n = 160 \<or> n = 5760 \<or> (8192 \<le> n \<and> n \<le> 8202) \<or>
        n = 8232 \<or> n = 8233 \<or> n = 8239 \<or> n = 8287 \<or> n = 12288 \<or> n = 65279)"

definition trim :: "jsstring \<Rightarrow> jsstring" where
  "trim s = rev (dropWhile isWhiteSpace (rev (dropWhile isWhiteSpace s)))"

text \<open>
  \<open>xs[i]\<close> reads \<open>undefined\<close> (here \<open>None\<close>) outside the array; it never throws.
\<close>

definition array_get :: "'a list \<Rightarrow> int \<Rightarrow> 'a option" where
  "array_get xs i = (if 0 \<le> i \<and> i < int (length xs) then Some (xs ! nat i) else None)"

text \<open>
  \<open>xs.slice(start)\<close>: a negative start counts from the end and is clamped at 0, a
  non-negative one is clamped at the length.
\<close>

definition array_slice :: "int \<Rightarrow> 'a list \<Rightarrow> 'a list" where
  "array_slice start xs =
     (let len = int (length xs);
          k = (if start < 0 then max (len + start) 0 else min start len)
      in drop (nat k) xs)"

section \<open>Regular expressions of the shape used by the source\<close>

text \<open>
  A pattern is a sequence of character classes, each matched once or one-or-more times.
  \<open>match_here\<close> says whether some prefix of the input matches the pattern (all ways of
  splitting a \<open>+\<close> are tried, as backtracking does), \<open>regex_test\<close> whether a match
  starts at some position, which is \<open>RegExp.prototype.test\<close> for a pattern without
  anchors and flags \<open>g\<close> or \<open>y\<close>.
\<close>

datatype quantifier = Once | OneOrMore

type_synonym regex = "((code_unit \<Rightarrow> bool) \<times> quantifier) list"

fun match_here :: "regex \<Rightarrow> jsstring \<Rightarrow> bool" where
  "match_here [] s = True"
| "match_here ((p, q) # r) [] = False"
| "match_here ((p, Once) # r) (c # cs) = (p c \<and> match_here r cs)"
| "match_here ((p, OneOrMore) # r) (c # cs) =
     (p c \<and> (match_here ((p, OneOrMore) # r) cs \<or> match_here r cs))"

fun regex_test :: "regex \<Rightarrow> jsstring \<Rightarrow> bool" where
  "regex_test r [] = match_here r []"
| "regex_test r (c # cs) = (match_here r (c # cs) \<or> regex_test r cs)"

section \<open>The Complexity block\<close>

text \<open>
  \<^verbatim>\<open>/O\([^)]+\)/i\<close>: with the flag \<open>i\<close> the letter matches \<open>O\<close> and \<open>o\<close> (no other
  code unit has the upper case \<open>O\<close>); the parentheses have no case.
\<close>

definition bigORegex :: regex where
  "bigORegex =
     [(\<lambda>c. c = of_char CHR ''O'' \<or> c = of_char CHR ''o'', Once),
      (\<lambda>c. c = of_char CHR ''('', Once),
      (\<lambda>c. c \<noteq> of_char CHR '')'', OneOrMore),
      (\<lambda>c. c = of_char CHR '')'', Once)]"

text \<open>
  \<open>!complexity\<close> holds for \<open>null\<close> (here \<open>None\<close>) and for the empty string.
\<close>

definition formatComplexity :: "jsstring option \<Rightarrow> jsstring" where
  "formatComplexity complexity =
     (case complexity of
        None \<Rightarrow> js ''N/A''
      | Some s \<Rightarrow>
          if s = [] \<or> trim s = [] then js ''N/A''
          else if regex_test bigORegex s then s
          else js ''O('' @ s @ js '')'')"

datatype complexity_view =
    Calculating
  | TimeSpace jsstring jsstring

definition ComplexitySection :: "jsstring option \<Rightarrow> jsstring option \<Rightarrow> bool \<Rightarrow> complexity_view" where
  "ComplexitySection timeComplexity spaceComplexity isLoading =
     (if isLoading then Calculating
      else TimeSpace (formatComplexity timeComplexity) (formatComplexity spaceComplexity))"

section \<open>Data model\<close>

record ProblemStatementData =
  problem_statement :: jsstring

record Solution =
  code :: jsstring
  thoughts :: "jsstring list"
  time_complexity :: jsstring
  space_complexity :: jsstring

text \<open>An entry of \<open>extraScreenshots\<close>; the field \<open>id\<close> of the source is \<open>id_path\<close>.\<close>

record screenshot =
  id_path :: jsstring
  path :: jsstring
  preview :: jsstring
  timestamp :: int

text \<open>What the platform bridge hands back, and how a promise settles.\<close>

record platform_screenshot =
  p_path :: jsstring
  p_preview :: jsstring

datatype screenshots_result =
    NotAnArray
  | ArrayOf "platform_screenshot list"

record delete_result =
  success :: bool

datatype 'a settled = Resolved 'a | Rejected

datatype platform_call =
    GetScreenshots
  | DeleteScreenshot jsstring

datatype view = queue | solutions | debug

datatype toast_variant = toast_error | toast_neutral | toast_success

record toast =
  title :: jsstring
  message :: jsstring
  variant :: toast_variant

datatype console_level = console_warn | console_error

record console_entry =
  level :: console_level
  text_of :: jsstring
  detail :: "jsstring option"

datatype timer_task = SetIsResetting bool

record timer =
  delay :: nat
  task :: timer_task

datatype js_error = TypeError | PlatformError

section \<open>The query cache\<close>

datatype cached =
    ProblemStatementV ProblemStatementData
  | SolutionV Solution

record query =
  data :: cached
  isInvalidated :: bool

type_synonym query_key = "string list"
type_synonym query_client = "query_key \<Rightarrow> query option"

text \<open>
  Modelled from the spec: the query client is an external library, not under src/.
  The spec (4.1) gives its contract as \<open>get(key) -> value | absent\<close>, \<open>set(key, value)\<close>,
  \<open>remove(key)\<close> and \<open>invalidate(key)\<close> (marks stale, does not clear), every write a
  full-value replacement; removal is \<open>remove\<close> alone. A payload that is \<open>undefined\<close>
  is \<open>None\<close>. The spec does not say what \<open>set\<close> does with it; the library the source
  imports (\<^verbatim>\<open>@tanstack/react-query\<close>) returns without touching the entry, and so does
  \<open>setQueryData\<close> here.
\<close>

definition getQueryData :: "query_client \<Rightarrow> query_key \<Rightarrow> cached option" where
  "getQueryData qc k = map_option data (qc k)"

definition setQueryData :: "query_key \<Rightarrow> cached option \<Rightarrow> query_client \<Rightarrow> query_client" where
  "setQueryData k v qc =
     (case v of
        None \<Rightarrow> qc
      | Some d \<Rightarrow> qc(k := Some \<lparr>data = d, isInvalidated = False\<rparr>))"

definition removeQueries :: "query_key \<Rightarrow> query_client \<Rightarrow> query_client" where
  "removeQueries k qc = qc(k := None)"

definition invalidateQueries :: "query_key \<Rightarrow> query_client \<Rightarrow> query_client" where
  "invalidateQueries k qc = qc(k := map_option (\<lambda>q. q\<lparr>isInvalidated := True\<rparr>) (qc k))"

section \<open>The platform events\<close>

datatype channel =
    screenshot_taken
  | reset_view
  | solution_start
  | problem_extracted
  | solution_error
  | solution_success
  | debug_start
  | debug_success
  | debug_error
  | processing_no_screenshots

text \<open>An event with its payload; a payload that may arrive \<open>undefined\<close> is an option.\<close>

datatype event =
    ScreenshotTaken
  | ResetView
  | SolutionStart
  | ProblemExtracted "ProblemStatementData option"
  | SolutionError jsstring
  | SolutionSuccess "Solution option"
  | DebugStart
  | DebugSuccess "Solution option"
  | DebugError
  | ProcessingNoScreenshots

fun channel_of :: "event \<Rightarrow> channel" where
  "channel_of ScreenshotTaken = screenshot_taken"
| "channel_of ResetView = reset_view"
| "channel_of SolutionStart = solution_start"
| "channel_of (ProblemExtracted d) = problem_extracted"
| "channel_of (SolutionError e) = solution_error"
| "channel_of (SolutionSuccess d) = solution_success"
| "channel_of DebugStart = debug_start"
| "channel_of (DebugSuccess d) = debug_success"
| "channel_of DebugError = debug_error"
| "channel_of ProcessingNoScreenshots = processing_no_screenshots"

section \<open>The component's state\<close>

text \<open>
  The three \<open>useState\<close> cells, the shared query client, the parent's view (written by
  \<open>setView\<close>), and the component's traffic with its collaborators: toasts shown,
  console lines, timers set and not yet fired, platform calls awaited, and the
  channels on which the bridge holds a listener of this component.
\<close>

record state =
  debugProcessing :: bool
  isResetting :: bool
  extraScreenshots :: "screenshot list"
  queryClient :: query_client
  view :: view
  toasts :: "toast list"
  console :: "console_entry list"
  timers :: "timer list"
  pending :: "platform_call list"
  listeners :: "channel list"

definition MAX_SCREENSHOTS :: nat where
  "MAX_SCREENSHOTS = 100"

definition showToast :: "jsstring \<Rightarrow> jsstring \<Rightarrow> toast_variant \<Rightarrow> state \<Rightarrow> state" where
  "showToast t m v st = st\<lparr>toasts := toasts st @ [\<lparr>title = t, message = m, variant = v\<rparr>]\<rparr>"

definition setView :: "view \<Rightarrow> state \<Rightarrow> state" where
  "setView v st = st\<lparr>view := v\<rparr>"

definition console_log :: "console_level \<Rightarrow> jsstring \<Rightarrow> jsstring option \<Rightarrow> state \<Rightarrow> state" where
  "console_log l t d st = st\<lparr>console := console st @ [\<lparr>level = l, text_of = t, detail = d\<rparr>]\<rparr>"

definition setTimeout :: "timer_task \<Rightarrow> nat \<Rightarrow> state \<Rightarrow> state" where
  "setTimeout f ms st = st\<lparr>timers := timers st @ [\<lparr>delay = ms, task = f\<rparr>]\<rparr>"

section \<open>The handlers\<close>

text \<open>
  \<open>onScreenshotTaken\<close> is asynchronous. Up to its \<open>await\<close> it asks the platform for
  the list; \<open>onScreenshotTaken_resume\<close> is the rest, run when the promise settles:
  with the platform's answer and the clock (\<open>now i\<close> is \<open>Date.now()\<close> as read for the
  element at index \<open>i\<close>), or into the \<open>catch\<close> when it rejects.
\<close>

definition onScreenshotTaken :: "state \<Rightarrow> state" where
  "onScreenshotTaken st = st\<lparr>pending := pending st @ [GetScreenshots]\<rparr>"

definition to_screenshots :: "(nat \<Rightarrow> int) \<Rightarrow> platform_screenshot list \<Rightarrow> screenshot list" where
  "to_screenshots now ps =
     map (\<lambda>(i, p). \<lparr>id_path = p_path p, path = p_path p, preview = p_preview p, timestamp = now i\<rparr>)
       (enumerate 0 ps)"

definition onScreenshotTaken_resume ::
  "screenshots_result settled \<Rightarrow> (nat \<Rightarrow> int) \<Rightarrow> state \<Rightarrow> state" where
  "onScreenshotTaken_resume r now st =
     (case r of
        Rejected \<Rightarrow> console_log console_error (js ''Error loading extra screenshots:'') None st
      | Resolved existing \<Rightarrow>
          st\<lparr>extraScreenshots :=
               array_slice (- int MAX_SCREENSHOTS)
                 (to_screenshots now (case existing of ArrayOf ps \<Rightarrow> ps | NotAnArray \<Rightarrow> []))\<rparr>)"

definition onResetView :: "state \<Rightarrow> state" where
  "onResetView st =
     setTimeout (SetIsResetting False) 0
       (st\<lparr>isResetting := True,
            queryClient := removeQueries [''new_solution''] (removeQueries [''solution''] (queryClient st)),
            extraScreenshots := []\<rparr>)"

definition onSolutionStart :: "state \<Rightarrow> state" where
  "onSolutionStart st = st\<lparr>queryClient := invalidateQueries [''solution''] (queryClient st)\<rparr>"

definition onProblemExtracted :: "ProblemStatementData option \<Rightarrow> state \<Rightarrow> state" where
  "onProblemExtracted d st =
     st\<lparr>queryClient := setQueryData [''problem_statement''] (map_option ProblemStatementV d) (queryClient st)\<rparr>"

definition onSolutionError :: "jsstring \<Rightarrow> state \<Rightarrow> state" where
  "onSolutionError err st =
     (let st1 = showToast (js ''Processing Failed'') err toast_error st;
          currentSolution = getQueryData (queryClient st1) [''solution''];
          st2 = (if currentSolution = None then setView queue st1 else st1)
      in console_log console_error (js ''Processing error:'') (Some err) st2)"

definition onSolutionSuccess :: "Solution option \<Rightarrow> state \<Rightarrow> state" where
  "onSolutionSuccess d st =
     (if d = None then console_log console_warn (js ''Received empty or invalid solution data'') None st
      else onScreenshotTaken
             (st\<lparr>queryClient := setQueryData [''solution''] (map_option SolutionV d) (queryClient st)\<rparr>))"

definition onDebugStart :: "state \<Rightarrow> state" where
  "onDebugStart st = st\<lparr>debugProcessing := True\<rparr>"

definition onDebugSuccess :: "Solution option \<Rightarrow> state \<Rightarrow> state" where
  "onDebugSuccess d st =
     st\<lparr>queryClient := setQueryData [''new_solution''] (map_option SolutionV d) (queryClient st),
         debugProcessing := False\<rparr>"

definition onDebugError :: "state \<Rightarrow> state" where
  "onDebugError st =
     (showToast (js ''Processing Failed'') (js ''There was an error debugging your code.'') toast_error st)
       \<lparr>debugProcessing := False\<rparr>"

definition onProcessingNoScreenshots :: "state \<Rightarrow> state" where
  "onProcessingNoScreenshots st =
     showToast (js ''No Screenshots'') (js ''There are no extra screenshots to process.'') toast_neutral st"

text \<open>The handler the mount effect binds to each event, applied to the event's payload.\<close>

fun handler :: "event \<Rightarrow> state \<Rightarrow> state" where
  "handler ScreenshotTaken = onScreenshotTaken"
| "handler ResetView = onResetView"
| "handler SolutionStart = onSolutionStart"
| "handler (ProblemExtracted d) = onProblemExtracted d"
| "handler (SolutionError e) = onSolutionError e"
| "handler (SolutionSuccess d) = onSolutionSuccess d"
| "handler DebugStart = onDebugStart"
| "handler (DebugSuccess d) = onDebugSuccess d"
| "handler DebugError = onDebugError"
| "handler ProcessingNoScreenshots = onProcessingNoScreenshots"

section \<open>Deleting a screenshot\<close>

text \<open>
  \<open>handleDeleteExtraScreenshot\<close> reads \<open>extraScreenshots[index]\<close> before its \<open>try\<close>.
  \<open>delete_request\<close> is the \<open>try\<close> body up to the \<open>await\<close>: reading \<open>.path\<close> of
  \<open>undefined\<close> throws a TypeError, otherwise the platform is asked to delete the path.
  \<open>delete_response\<close> is the body after the \<open>await\<close>, where a rejected promise throws.
  Every throw of either part lands in the \<open>catch\<close>, which shows the error toast.
\<close>

definition delete_request :: "screenshot option \<Rightarrow> state \<Rightarrow> js_error + state" where
  "delete_request screenshotToDelete st =
     (case screenshotToDelete of
        None \<Rightarrow> Inl TypeError
      | Some s \<Rightarrow> Inr (st\<lparr>pending := pending st @ [DeleteScreenshot (path s)]\<rparr>))"

definition delete_response :: "delete_result settled \<Rightarrow> state \<Rightarrow> js_error + state" where
  "delete_response r st =
     (case r of
        Rejected \<Rightarrow> Inl PlatformError
      | Resolved response \<Rightarrow>
          Inr (if success response then onScreenshotTaken st
               else showToast (js ''Error'') (js ''Failed to delete the screenshot'') toast_error st))"

definition delete_catch :: "js_error + state \<Rightarrow> state \<Rightarrow> js_error + state" where
  "delete_catch body st =
     (case body of
        Inl e \<Rightarrow> Inr (showToast (js ''Error'') (js ''Failed to delete the screenshot'') toast_error st)
      | Inr st' \<Rightarrow> Inr st')"

definition handleDeleteExtraScreenshot :: "int \<Rightarrow> state \<Rightarrow> js_error + state" where
  "handleDeleteExtraScreenshot index st =
     (let screenshotToDelete = array_get (extraScreenshots st) index
      in delete_catch (delete_request screenshotToDelete st) st)"

definition handleDeleteExtraScreenshot_resume :: "delete_result settled \<Rightarrow> state \<Rightarrow> js_error + state" where
  "handleDeleteExtraScreenshot_resume r st = delete_catch (delete_response r st) st"

section \<open>The mount effect\<close>

text \<open>
  Modelled from the spec: the platform bridge (\<open>window.electronAPI\<close>) is not under src/.
  By the spec (4.2, 6) a subscription function registers the handler on its channel and
  returns a function that removes it again; teardown has to tolerate the function being
  absent, so whether a channel's subscription returns one is the parameter \<open>bridge\<close>.
\<close>

type_synonym bridge = "channel \<Rightarrow> bool"

datatype unregister = RemoveListener channel

definition electron_on :: "bridge \<Rightarrow> channel \<Rightarrow> state \<Rightarrow> state \<times> unregister option" where
  "electron_on b ch st =
     (st\<lparr>listeners := listeners st @ [ch]\<rparr>, if b ch then Some (RemoveListener ch) else None)"

text \<open>The array literal \<open>unregisterFunctions\<close>: its elements are evaluated in order.\<close>

fun register_all :: "bridge \<Rightarrow> channel list \<Rightarrow> state \<Rightarrow> state \<times> unregister option list" where
  "register_all b [] st = (st, [])"
| "register_all b (ch # chs) st =
     (let (st1, u) = electron_on b ch st;
          (st2, us) = register_all b chs st1
      in (st2, u # us))"

definition subscribed_channels :: "channel list" where
  "subscribed_channels =
     [screenshot_taken, reset_view, solution_start, problem_extracted, solution_error,
      solution_success, debug_start, debug_success, debug_error, processing_no_screenshots]"

definition useEffect_mount :: "bridge \<Rightarrow> state \<Rightarrow> state \<times> unregister option list" where
  "useEffect_mount b st = register_all b subscribed_channels (onScreenshotTaken st)"

text \<open>Calling \<open>undefined\<close> throws; calling an unregister function removes the listener.\<close>

fun call_unregister :: "unregister option \<Rightarrow> state \<Rightarrow> js_error + state" where
  "call_unregister None st = Inl TypeError"
| "call_unregister (Some (RemoveListener ch)) st = Inr (st\<lparr>listeners := remove1 ch (listeners st)\<rparr>)"

text \<open>\<^verbatim>\<open>unregisterFunctions.forEach(unregister => unregister && unregister())\<close>\<close>

fun useEffect_cleanup :: "unregister option list \<Rightarrow> state \<Rightarrow> js_error + state" where
  "useEffect_cleanup [] st = Inr st"
| "useEffect_cleanup (u # us) st =
     (case (if u \<noteq> None then call_unregister u st else Inr st) of
        Inl e \<Rightarrow> Inl e
      | Inr st' \<Rightarrow> useEffect_cleanup us st')"

section \<open>The view selector\<close>

text \<open>
  The props the render reads; \<open>COMMAND_KEY\<close> comes from a module that is not under
  src/ and is taken as given.
\<close>

record props =
  credits :: int
  currentLanguage :: jsstring
  COMMAND_KEY :: jsstring

datatype node =
    Text "jsstring option"
  | Bullets "jsstring list"

text \<open>A section is its title and its content, or no content while it is loading.\<close>

definition ContentSection :: "jsstring \<Rightarrow> node \<Rightarrow> bool \<Rightarrow> jsstring \<times> node option" where
  "ContentSection t content isLoading = (t, if isLoading then None else Some content)"

definition SolutionSection ::
  "jsstring \<Rightarrow> jsstring \<Rightarrow> bool \<Rightarrow> jsstring \<Rightarrow> jsstring \<times> (jsstring \<times> jsstring) option" where
  "SolutionSection t content isLoading lang =
     (t, if isLoading then None
         else Some (content, if lang = js ''golang'' then js ''go'' else lang))"

record commands_props =
  isProcessing :: bool
  commands_screenshots :: "screenshot list"
  commands_credits :: int
  commands_language :: jsstring

record base_layout =
  screenshot_queue :: "(bool \<times> screenshot list) option"
  solution_commands :: commands_props
  problem_section :: "(jsstring \<times> node option) option"
  thoughts_section :: "(jsstring \<times> node option) option"
  solution_section :: "(jsstring \<times> (jsstring \<times> jsstring) option) option"
  complexity_section :: "complexity_view option"

datatype rendered =
    is_Debug: Debug bool jsstring
  | is_Base: Base base_layout

text \<open>\<open>solutionData?.f\<close> and \<open>problemStatementData?.problem_statement\<close>.\<close>

definition solution_field :: "(Solution \<Rightarrow> 'a) \<Rightarrow> cached option \<Rightarrow> 'a option" where
  "solution_field f d = (case d of Some (SolutionV s) \<Rightarrow> Some (f s) | _ \<Rightarrow> None)"

definition statement_field :: "cached option \<Rightarrow> jsstring option" where
  "statement_field d = (case d of Some (ProblemStatementV s) \<Rightarrow> Some (problem_statement s) | _ \<Rightarrow> None)"

definition Solutions :: "props \<Rightarrow> state \<Rightarrow> rendered" where
  "Solutions p st =
     (let problemStatementData = getQueryData (queryClient st) [''problem_statement''];
          solutionData = getQueryData (queryClient st) [''solution''];
          newSolutionData = getQueryData (queryClient st) [''new_solution'']
      in if \<not> isResetting st \<and> newSolutionData \<noteq> None
         then Debug (debugProcessing st) (currentLanguage p)
         else Base
           \<lparr>screenshot_queue =
              (if solutionData \<noteq> None then Some (debugProcessing st, extraScreenshots st) else None),
            solution_commands =
              \<lparr>isProcessing = (problemStatementData = None \<or> solutionData = None),
               commands_screenshots = extraScreenshots st,
               commands_credits = credits p,
               commands_language = currentLanguage p\<rparr>,
            problem_section =
              (if solutionData = None
               then Some (ContentSection (js ''Problem Statement'')
                            (Text (statement_field problemStatementData)) (problemStatementData = None))
               else None),
            thoughts_section =
              (case solution_field thoughts solutionData of
                 None \<Rightarrow> None
               | Some ts \<Rightarrow>
                   Some (ContentSection
                           (js ''My Thoughts ('' @ COMMAND_KEY p @ js '' + Arrow keys to scroll)'')
                           (Bullets ts) False)),
            solution_section =
              (case solution_field code solutionData of
                 None \<Rightarrow> None
               | Some c \<Rightarrow>
                   if c \<noteq> [] then Some (SolutionSection (js ''Solution'') c False (currentLanguage p))
                   else None),
            complexity_section =
              (case (solution_field time_complexity solutionData,
                     solution_field space_complexity solutionData) of
                 (Some t, Some s) \<Rightarrow>
                   if t \<noteq> [] \<and> s \<noteq> [] then Some (ComplexitySection (Some t) (Some s) False)
                   else None
               | _ \<Rightarrow> None)\<rparr>)"

section \<open>The event loop\<close>

text \<open>
  One action is one task of the single-threaded loop; renders see the states between
  tasks only. A platform event runs the handler once per listener the bridge holds on
  its channel; a settled promise resumes the handler that awaits it; a timer fires in
  the order it was set; a click on a delete button calls the delete operation.
\<close>

datatype action =
    Event event
  | ScreenshotsSettled "screenshots_result settled" "nat \<Rightarrow> int"
  | DeleteSettled "delete_result settled"
  | TimerFired
  | DeleteClicked int

fun run_timer_task :: "timer_task \<Rightarrow> state \<Rightarrow> state" where
  "run_timer_task (SetIsResetting b) st = st\<lparr>isResetting := b\<rparr>"

fun is_delete :: "platform_call \<Rightarrow> bool" where
  "is_delete (DeleteScreenshot p) = True"
| "is_delete GetScreenshots = False"

fun settle :: "js_error + state \<Rightarrow> state \<Rightarrow> state" where
  "settle (Inr st') st = st'"
| "settle (Inl e) st = st"

fun step :: "state \<Rightarrow> action \<Rightarrow> state" where
  "step st (Event e) = (handler e ^^ count_list (listeners st) (channel_of e)) st"
| "step st (ScreenshotsSettled r now) =
     (if List.member (pending st) GetScreenshots
      then onScreenshotTaken_resume r now (st\<lparr>pending := remove1 GetScreenshots (pending st)\<rparr>)
      else st)"
| "step st (DeleteSettled r) =
     (case find is_delete (pending st) of
        None \<Rightarrow> st
      | Some c \<Rightarrow>
          settle (handleDeleteExtraScreenshot_resume r (st\<lparr>pending := remove1 c (pending st)\<rparr>)) st)"
| "step st TimerFired =
     (case timers st of
        [] \<Rightarrow> st
      | t # ts \<Rightarrow> run_timer_task (task t) (st\<lparr>timers := ts\<rparr>))"
| "step st (DeleteClicked i) = settle (handleDeleteExtraScreenshot i st) st"

definition run :: "state \<Rightarrow> action list \<Rightarrow> state" where
  "run st as = foldl step st as"

text \<open>
  The state at the first render (the initial values of the three \<open>useState\<close> cells,
  the query client and the parent's view as they are found), and after the mount effect.
\<close>

definition initial :: "query_client \<Rightarrow> view \<Rightarrow> state" where
  "initial qc v =
     \<lparr>debugProcessing = False, isResetting = False, extraScreenshots = [], queryClient = qc,
      view = v, toasts = [], console = [], timers = [], pending = [], listeners = []\<rparr>"

definition mounted :: "bridge \<Rightarrow> query_client \<Rightarrow> view \<Rightarrow> state" where
  "mounted b qc v = fst (useEffect_mount b (initial qc v))"

section \<open>Properties\<close>

lemmas cache_defs = getQueryData_def setQueryData_def removeQueries_def invalidateQueries_def

lemmas effect_defs = showToast_def setView_def console_log_def setTimeout_def onScreenshotTaken_def

lemmas delete_defs = handleDeleteExtraScreenshot_def handleDeleteExtraScreenshot_resume_def
  delete_catch_def delete_request_def delete_response_def

subsection \<open>The view selector\<close>

text \<open>
  C1. The Debug view is rendered exactly when \<open>isResetting\<close> is false and a
  \<open>new_solution\<close> entry is cached, and the base layout otherwise; whatever is written
  under \<open>solution\<close> does not change which of the two is rendered.
\<close>

theorem debug_view_iff:
  "is_Debug (Solutions p st) =
     (\<not> isResetting st \<and> getQueryData (queryClient st) [''new_solution''] \<noteq> None) \<and>
   is_Base (Solutions p st) =
     (isResetting st \<or> getQueryData (queryClient st) [''new_solution''] = None) \<and>
   is_Debug (Solutions p (st\<lparr>queryClient := setQueryData [''solution''] s (queryClient st)\<rparr>)) =
     is_Debug (Solutions p st)"
  by (cases s) (auto simp: Solutions_def Let_def cache_defs)

subsection \<open>Reset\<close>

lemma register_all_frame:
  "fst (register_all b chs st) = st\<lparr>listeners := listeners st @ chs\<rparr>"
  by (induction chs arbitrary: st) (simp_all add: electron_on_def split_def Let_def)

lemma register_all_returns:
  "snd (register_all b chs st) = map (\<lambda>ch. if b ch then Some (RemoveListener ch) else None) chs"
  by (induction chs arbitrary: st) (simp_all add: electron_on_def split_def Let_def)

lemma mounted_listeners: "listeners (mounted b qc v) = subscribed_channels"
  by (simp add: mounted_def useEffect_mount_def register_all_frame initial_def onScreenshotTaken_def)

lemma onResetView_cleared:
  "getQueryData (queryClient (onResetView st)) [''solution''] = None \<and>
   getQueryData (queryClient (onResetView st)) [''new_solution''] = None"
  by (simp add: onResetView_def effect_defs cache_defs)

lemma funpow_onResetView_cleared:
  "0 < n \<Longrightarrow>
   getQueryData (queryClient ((onResetView ^^ n) st)) [''solution''] = None \<and>
   getQueryData (queryClient ((onResetView ^^ n) st)) [''new_solution''] = None"
  by (cases n) (simp_all add: onResetView_cleared)

text \<open>Firing every pending timer, the last of which sets the flag to \<open>b\<close>, leaves it \<open>b\<close>.\<close>

lemma timers_drain:
  "timers st = ts @ [\<lparr>delay = d, task = SetIsResetting b\<rparr>] \<Longrightarrow>
   isResetting (run st (replicate (Suc (length ts)) TimerFired)) = b \<and>
   timers (run st (replicate (Suc (length ts)) TimerFired)) = []"
proof (induction ts arbitrary: st)
  case Nil
  then show ?case by (simp add: run_def)
next
  case (Cons t ts)
  have "timers (step st TimerFired) = ts @ [\<lparr>delay = d, task = SetIsResetting b\<rparr>]"
    using Cons.prems by (cases "task t") simp
  from Cons.IH [OF this] show ?case by (simp add: run_def)
qed

text \<open>
  C2. The reset handler sets \<open>isResetting\<close>, removes the \<open>solution\<close> and the
  \<open>new_solution\<close> entry (and leaves \<open>problem_statement\<close>), empties the screenshot list
  and appends a zero-delay timer that sets \<open>isResetting\<close> to false: the flag is still set
  when the handler's task ends and is false once the pending timers have fired. The
  handler is one task, so the state a render sees after a reset event, on a component
  that listens to it, has both entries absent and selects the base layout.
\<close>

theorem reset_view_clears_together:
  "isResetting (onResetView st) \<and>
   getQueryData (queryClient (onResetView st)) [''solution''] = None \<and>
   getQueryData (queryClient (onResetView st)) [''new_solution''] = None \<and>
   getQueryData (queryClient (onResetView st)) [''problem_statement''] =
     getQueryData (queryClient st) [''problem_statement''] \<and>
   extraScreenshots (onResetView st) = [] \<and>
   timers (onResetView st) = timers st @ [\<lparr>delay = 0, task = SetIsResetting False\<rparr>] \<and>
   \<not> isResetting (run (onResetView st) (replicate (length (timers (onResetView st))) TimerFired)) \<and>
   (List.member (listeners st) reset_view \<longrightarrow>
      getQueryData (queryClient (step st (Event ResetView))) [''solution''] = None \<and>
      getQueryData (queryClient (step st (Event ResetView))) [''new_solution''] = None \<and>
      is_Base (Solutions p (step st (Event ResetView))))"
proof -
  have t: "timers (onResetView st) = timers st @ [\<lparr>delay = 0, task = SetIsResetting False\<rparr>]"
    by (simp add: onResetView_def effect_defs)
  have d: "\<not> isResetting (run (onResetView st) (replicate (length (timers (onResetView st))) TimerFired))"
    using timers_drain [OF t] by (simp add: t)
  have s: "List.member (listeners st) reset_view \<longrightarrow>
      getQueryData (queryClient (step st (Event ResetView))) [''solution''] = None \<and>
      getQueryData (queryClient (step st (Event ResetView))) [''new_solution''] = None \<and>
      is_Base (Solutions p (step st (Event ResetView)))"
  proof
    assume "List.member (listeners st) reset_view"
    then have "0 < count_list (listeners st) reset_view"
      using count_list_0_iff [of "listeners st" reset_view] by auto
    from funpow_onResetView_cleared [OF this, of st]
    show "getQueryData (queryClient (step st (Event ResetView))) [''solution''] = None \<and>
      getQueryData (queryClient (step st (Event ResetView))) [''new_solution''] = None \<and>
      is_Base (Solutions p (step st (Event ResetView)))"
      by (simp add: Solutions_def Let_def)
  qed
  show ?thesis
    using t d s by (simp add: onResetView_def effect_defs cache_defs)
qed

theorem reset_view_clears_together_witness:
  "List.member (listeners (mounted (\<lambda>ch. True) (setQueryData [''new_solution'']
       (Some (SolutionV \<lparr>code = js ''x'', thoughts = [], time_complexity = js ''n'', space_complexity = js ''1''\<rparr>))
       Map.empty) solutions)) reset_view \<and>
   is_Debug (Solutions \<lparr>credits = 1, currentLanguage = js ''python'', COMMAND_KEY = js ''Ctrl''\<rparr>
     (mounted (\<lambda>ch. True) (setQueryData [''new_solution'']
       (Some (SolutionV \<lparr>code = js ''x'', thoughts = [], time_complexity = js ''n'', space_complexity = js ''1''\<rparr>))
       Map.empty) solutions)) \<and>
   getQueryData (queryClient (step (mounted (\<lambda>ch. True) (setQueryData [''new_solution'']
       (Some (SolutionV \<lparr>code = js ''x'', thoughts = [], time_complexity = js ''n'', space_complexity = js ''1''\<rparr>))
       Map.empty) solutions) (Event ResetView))) [''new_solution''] = None \<and>
   is_Base (Solutions \<lparr>credits = 1, currentLanguage = js ''python'', COMMAND_KEY = js ''Ctrl''\<rparr>
     (step (mounted (\<lambda>ch. True) (setQueryData [''new_solution'']
       (Some (SolutionV \<lparr>code = js ''x'', thoughts = [], time_complexity = js ''n'', space_complexity = js ''1''\<rparr>))
       Map.empty) solutions) (Event ResetView)))"
  (is "List.member (listeners ?st) reset_view \<and> is_Debug (Solutions ?p ?st) \<and> ?n \<and> ?b")
proof -
  have h: "List.member (listeners ?st) reset_view"
    by (simp add: mounted_listeners subscribed_channels_def)
  have d: "is_Debug (Solutions ?p ?st)"
    by (simp add: Solutions_def Let_def mounted_def useEffect_mount_def register_all_frame initial_def
        onScreenshotTaken_def cache_defs)
  from reset_view_clears_together [of ?st ?p] h have "?n \<and> ?b"
    by blast
  with h d show ?thesis by blast
qed

subsection \<open>The screenshot list\<close>

lemma array_slice_last:
  "array_slice (- int MAX_SCREENSHOTS) xs = drop (length xs - MAX_SCREENSHOTS) xs"
proof -
  have "nat (max (int (length xs) + - int MAX_SCREENSHOTS) 0) = length xs - MAX_SCREENSHOTS"
    by (simp add: max_def) linarith
  then show ?thesis
    by (simp add: array_slice_def Let_def MAX_SCREENSHOTS_def)
qed

lemma length_to_screenshots: "length (to_screenshots now ps) = length ps"
  by (simp add: to_screenshots_def)

lemma map_path_to_screenshots: "map path (to_screenshots now ps) = map p_path ps"
proof -
  have "map path (to_screenshots now ps) = map p_path (map snd (enumerate 0 ps))"
    by (simp add: to_screenshots_def split_def comp_def del: map_snd_enumerate)
  then show ?thesis by simp
qed

lemma resume_resolved:
  "extraScreenshots (onScreenshotTaken_resume (Resolved (ArrayOf ps)) now st) =
     drop (length ps - MAX_SCREENSHOTS) (to_screenshots now ps)"
  by (simp add: onScreenshotTaken_resume_def array_slice_last length_to_screenshots)

lemma resume_bound:
  "length (extraScreenshots st) \<le> MAX_SCREENSHOTS \<Longrightarrow>
   length (extraScreenshots (onScreenshotTaken_resume r now st)) \<le> MAX_SCREENSHOTS"
  by (cases r)
    (auto simp: onScreenshotTaken_resume_def array_slice_last
      length_to_screenshots console_log_def split: screenshots_result.splits)

text \<open>No handler of a platform event touches the list, but for the reset, which empties it.\<close>

lemma handler_screenshots:
  "extraScreenshots (handler e st) = extraScreenshots st \<or> extraScreenshots (handler e st) = []"
  by (cases e)
    (simp_all add: onResetView_def onSolutionStart_def onProblemExtracted_def onSolutionError_def
      onSolutionSuccess_def onDebugStart_def onDebugSuccess_def onDebugError_def
      onProcessingNoScreenshots_def effect_defs Let_def)

lemma handler_bound:
  "length (extraScreenshots st) \<le> n \<Longrightarrow> length (extraScreenshots (handler e st)) \<le> n"
  using handler_screenshots [of e st] by auto

lemma funpow_handler_bound:
  "length (extraScreenshots st) \<le> n \<Longrightarrow> length (extraScreenshots ((handler e ^^ k) st)) \<le> n"
  by (induction k) (simp_all add: handler_bound)

lemma delete_keeps_screenshots:
  "extraScreenshots (settle (handleDeleteExtraScreenshot i st) st) = extraScreenshots st"
  by (simp add: delete_defs effect_defs split: option.splits)

lemma delete_resume_keeps_screenshots:
  "extraScreenshots (settle (handleDeleteExtraScreenshot_resume r st) st') = extraScreenshots st"
  by (cases r) (simp_all add: delete_defs effect_defs)

lemma step_delete_settled_keeps:
  "extraScreenshots (step st (DeleteSettled r)) = extraScreenshots st"
  by (simp add: delete_resume_keeps_screenshots split: option.splits)

lemma step_delete_clicked_keeps:
  "extraScreenshots (step st (DeleteClicked i)) = extraScreenshots st"
  by (simp add: delete_keeps_screenshots)

lemma step_bound:
  "length (extraScreenshots st) \<le> MAX_SCREENSHOTS \<Longrightarrow>
   length (extraScreenshots (step st a)) \<le> MAX_SCREENSHOTS"
proof (cases a)
  case (Event e)
  then show "length (extraScreenshots st) \<le> MAX_SCREENSHOTS \<Longrightarrow> ?thesis"
    by (simp add: funpow_handler_bound)
next
  case (ScreenshotsSettled r now)
  then show "length (extraScreenshots st) \<le> MAX_SCREENSHOTS \<Longrightarrow> ?thesis"
    by (simp add: resume_bound)
next
  case (DeleteSettled r)
  then show "length (extraScreenshots st) \<le> MAX_SCREENSHOTS \<Longrightarrow> ?thesis"
    by (simp only: step_delete_settled_keeps)
next
  case TimerFired
  then show "length (extraScreenshots st) \<le> MAX_SCREENSHOTS \<Longrightarrow> ?thesis"
    by (cases "timers st"; cases "task (hd (timers st))") auto
next
  case (DeleteClicked i)
  then show "length (extraScreenshots st) \<le> MAX_SCREENSHOTS \<Longrightarrow> ?thesis"
    by (simp only: step_delete_clicked_keeps)
qed

lemma run_bound:
  "length (extraScreenshots st) \<le> MAX_SCREENSHOTS \<Longrightarrow>
   length (extraScreenshots (run st as)) \<le> MAX_SCREENSHOTS"
  unfolding run_def by (induction as arbitrary: st) (simp_all add: step_bound)

lemma mounted_screenshots: "extraScreenshots (mounted b qc v) = []"
  by (simp add: mounted_def useEffect_mount_def register_all_frame initial_def onScreenshotTaken_def)

text \<open>
  C3. From the mounted component, after any sequence of tasks (screenshot-taken events,
  and every other event, settled promise, timer and delete click), the screenshot list
  holds at most 100 entries. When a fetch resolves with the platform's list \<open>ps\<close>, the
  list becomes the last \<open>min (length ps) 100\<close> entries of \<open>ps\<close>, in the platform's order:
  the entries dropped are the ones at the front.
\<close>

theorem screenshots_at_most_100:
  "length (extraScreenshots (run (mounted b qc v) as)) \<le> MAX_SCREENSHOTS \<and>
   MAX_SCREENSHOTS = 100 \<and>
   extraScreenshots (onScreenshotTaken_resume (Resolved (ArrayOf ps)) now st) =
     drop (length ps - MAX_SCREENSHOTS) (to_screenshots now ps) \<and>
   map path (extraScreenshots (onScreenshotTaken_resume (Resolved (ArrayOf ps)) now st)) =
     drop (length ps - MAX_SCREENSHOTS) (map p_path ps) \<and>
   length (extraScreenshots (onScreenshotTaken_resume (Resolved (ArrayOf ps)) now st)) =
     min (length ps) MAX_SCREENSHOTS"
proof -
  have "length (extraScreenshots (run (mounted b qc v) as)) \<le> MAX_SCREENSHOTS"
    by (rule run_bound) (simp add: mounted_screenshots)
  moreover have "map path (drop (length ps - MAX_SCREENSHOTS) (to_screenshots now ps)) =
      drop (length ps - MAX_SCREENSHOTS) (map p_path ps)"
    by (simp add: drop_map [symmetric] map_path_to_screenshots)
  ultimately show ?thesis
    by (simp add: resume_resolved length_to_screenshots) (simp add: MAX_SCREENSHOTS_def)
qed

subsection \<open>Subscription and teardown\<close>

lemma cleanup_removes:
  "useEffect_cleanup (map (\<lambda>ch. if b ch then Some (RemoveListener ch) else None) chs) st =
     Inr (st\<lparr>listeners := fold remove1 (filter b chs) (listeners st)\<rparr>)"
  by (induction chs arbitrary: st) simp_all

lemma remove1_distinct: "distinct ls \<Longrightarrow> remove1 x ls = filter (\<lambda>y. y \<noteq> x) ls"
proof -
  have "filter (\<lambda>y. x \<noteq> y) ls = filter (\<lambda>y. y \<noteq> x) ls"
    by (rule filter_cong) auto
  then show "distinct ls \<Longrightarrow> ?thesis"
    by (simp add: distinct_remove1_removeAll removeAll_filter_not_eq)
qed

lemma fold_remove1_distinct:
  "distinct ls \<Longrightarrow> fold remove1 xs ls = filter (\<lambda>x. x \<notin> set xs) ls"
proof (induction xs arbitrary: ls)
  case Nil
  then show ?case by simp
next
  case (Cons x xs)
  have "fold remove1 (x # xs) ls = fold remove1 xs (remove1 x ls)"
    by simp
  also have "\<dots> = filter (\<lambda>y. y \<notin> set xs) (remove1 x ls)"
    using Cons.prems by (intro Cons.IH) simp
  also have "\<dots> = filter (\<lambda>y. y \<notin> set xs) (filter (\<lambda>y. y \<noteq> x) ls)"
    using Cons.prems by (simp only: remove1_distinct)
  also have "\<dots> = filter (\<lambda>y. y \<notin> set (x # xs)) ls"
    by (simp add: conj_commute)
  finally show ?case .
qed

lemma distinct_subscribed: "distinct subscribed_channels"
  by (simp add: subscribed_channels_def)

lemma count_subscribed: "count_list subscribed_channels ch = 1"
  by (cases ch) (simp_all add: subscribed_channels_def)

text \<open>
  C4. On a component that holds no listener yet, the mount effect registers one
  listener on each of the ten channels, in the order of the source, and keeps what
  each registration returned. The cleanup calls every unregister function that was
  returned and skips an absent one: it never throws, and the listeners left are those
  of the channels whose registration returned no function (none, when all did).
\<close>

theorem ten_handlers_registered_and_released:
  assumes "listeners st = []"
  shows "listeners (fst (useEffect_mount b st)) =
           [screenshot_taken, reset_view, solution_start, problem_extracted, solution_error,
            solution_success, debug_start, debug_success, debug_error, processing_no_screenshots] \<and>
         (\<forall>ch. count_list (listeners (fst (useEffect_mount b st))) ch = 1) \<and>
         snd (useEffect_mount b st) =
           map (\<lambda>ch. if b ch then Some (RemoveListener ch) else None) subscribed_channels \<and>
         useEffect_cleanup (snd (useEffect_mount b st)) (fst (useEffect_mount b st)) =
           Inr ((fst (useEffect_mount b st))\<lparr>listeners := filter (\<lambda>ch. \<not> b ch) subscribed_channels\<rparr>)"
proof -
  have l: "listeners (fst (useEffect_mount b st)) = subscribed_channels"
    using assms by (simp add: useEffect_mount_def register_all_frame onScreenshotTaken_def)
  have l': "listeners (fst (useEffect_mount b st)) =
           [screenshot_taken, reset_view, solution_start, problem_extracted, solution_error,
            solution_success, debug_start, debug_success, debug_error, processing_no_screenshots]"
    unfolding l by (simp add: subscribed_channels_def)
  have n: "\<forall>ch. count_list (listeners (fst (useEffect_mount b st))) ch = 1"
    unfolding l by (simp add: count_subscribed)
  have u: "snd (useEffect_mount b st) =
      map (\<lambda>ch. if b ch then Some (RemoveListener ch) else None) subscribed_channels"
    by (simp add: useEffect_mount_def register_all_returns)
  have "filter (\<lambda>x. x \<notin> set (filter b subscribed_channels)) subscribed_channels =
      filter (\<lambda>ch. \<not> b ch) subscribed_channels"
    by (rule filter_cong) auto
  then have f: "fold remove1 (filter b subscribed_channels) subscribed_channels =
      filter (\<lambda>ch. \<not> b ch) subscribed_channels"
    by (simp only: fold_remove1_distinct [OF distinct_subscribed])
  have c: "useEffect_cleanup (snd (useEffect_mount b st)) (fst (useEffect_mount b st)) =
      Inr ((fst (useEffect_mount b st))\<lparr>listeners := filter (\<lambda>ch. \<not> b ch) subscribed_channels\<rparr>)"
    by (simp only: u cleanup_removes l f)
  from l' n u c show ?thesis by (intro conjI)
qed

theorem ten_handlers_registered_and_released_witness:
  "listeners (initial Map.empty solutions) = [] \<and>
   listeners (fst (useEffect_mount (\<lambda>ch. ch \<noteq> debug_error) (initial Map.empty solutions))) =
     [screenshot_taken, reset_view, solution_start, problem_extracted, solution_error,
      solution_success, debug_start, debug_success, debug_error, processing_no_screenshots] \<and>
   useEffect_cleanup (snd (useEffect_mount (\<lambda>ch. ch \<noteq> debug_error) (initial Map.empty solutions)))
       (fst (useEffect_mount (\<lambda>ch. ch \<noteq> debug_error) (initial Map.empty solutions))) =
     Inr ((fst (useEffect_mount (\<lambda>ch. ch \<noteq> debug_error) (initial Map.empty solutions)))
            \<lparr>listeners := [debug_error]\<rparr>)"
proof -
  have h: "listeners (initial Map.empty solutions) = []"
    by (simp add: initial_def)
  have f: "filter (\<lambda>ch. \<not> ch \<noteq> debug_error) subscribed_channels = [debug_error]"
    by (simp add: subscribed_channels_def)
  note t = ten_handlers_registered_and_released [OF h, of "\<lambda>ch. ch \<noteq> debug_error", unfolded f]
  from t have a: "listeners (fst (useEffect_mount (\<lambda>ch. ch \<noteq> debug_error) (initial Map.empty solutions))) =
     [screenshot_taken, reset_view, solution_start, problem_extracted, solution_error,
      solution_success, debug_start, debug_success, debug_error, processing_no_screenshots]"
    by (rule conjunct1)
  from t have c: "useEffect_cleanup (snd (useEffect_mount (\<lambda>ch. ch \<noteq> debug_error) (initial Map.empty solutions)))
       (fst (useEffect_mount (\<lambda>ch. ch \<noteq> debug_error) (initial Map.empty solutions))) =
     Inr ((fst (useEffect_mount (\<lambda>ch. ch \<noteq> debug_error) (initial Map.empty solutions)))
            \<lparr>listeners := [debug_error]\<rparr>)"
    by (rule conjunct2 [OF conjunct2 [OF conjunct2]])
  from h a c show ?thesis by (intro conjI)
qed

subsection \<open>Solution and debug events\<close>

text \<open>
  C5. On a solution-success event without payload the handler only logs a warning:
  the query client, and so the \<open>solution\<close> entry, the awaited platform calls and the
  screenshot list are as before. With a payload the \<open>solution\<close> entry becomes the
  payload and one request for the screenshot list is issued; when that request
  resolves, the list is replaced by the tail of the platform's list.
\<close>

theorem solution_success_payload:
  "onSolutionSuccess None st =
     st\<lparr>console := console st @
        [\<lparr>level = console_warn, text_of = js ''Received empty or invalid solution data'', detail = None\<rparr>]\<rparr> \<and>
   queryClient (onSolutionSuccess None st) = queryClient st \<and>
   pending (onSolutionSuccess None st) = pending st \<and>
   extraScreenshots (onSolutionSuccess None st) = extraScreenshots st \<and>
   getQueryData (queryClient (onSolutionSuccess (Some d) st)) [''solution''] = Some (SolutionV d) \<and>
   pending (onSolutionSuccess (Some d) st) = pending st @ [GetScreenshots] \<and>
   console (onSolutionSuccess (Some d) st) = console st \<and>
   extraScreenshots
     (step (onSolutionSuccess (Some d) st) (ScreenshotsSettled (Resolved (ArrayOf ps)) now)) =
     array_slice (- int MAX_SCREENSHOTS) (to_screenshots now ps)"
  by (simp add: onSolutionSuccess_def effect_defs cache_defs onScreenshotTaken_resume_def)

text \<open>
  C6. The solution-error handler always appends an error toast that carries the
  event's message. The parent's view becomes the queue when no \<open>solution\<close> entry is
  cached and stays what it was when one is; the query client, the screenshot list and
  the two flags are untouched either way.
\<close>

theorem solution_error_fallback:
  "toasts (onSolutionError err st) =
     toasts st @ [\<lparr>title = js ''Processing Failed'', message = err, variant = toast_error\<rparr>] \<and>
   view (onSolutionError err st) =
     (if getQueryData (queryClient st) [''solution''] = None then queue else view st) \<and>
   queryClient (onSolutionError err st) = queryClient st \<and>
   extraScreenshots (onSolutionError err st) = extraScreenshots st \<and>
   isResetting (onSolutionError err st) = isResetting st \<and>
   debugProcessing (onSolutionError err st) = debugProcessing st"
  by (simp add: onSolutionError_def effect_defs Let_def)

text \<open>
  C9, as amended. The debug-success handler passes every payload, an absent one too,
  to the cache's \<open>set\<close> under \<open>new_solution\<close> and clears the debug-processing flag. A
  present payload becomes the \<open>new_solution\<close> entry. An absent payload leaves the query
  client as it was: the \<open>new_solution\<close> entry keeps its value, and the Debug view is
  selected after the event exactly when \<open>isResetting\<close> is false and a \<open>new_solution\<close>
  entry was cached before it. The solution-success handler, by contrast, does not call
  \<open>set\<close> on an absent payload.
\<close>

theorem debug_success_unvalidated:
  "queryClient (onDebugSuccess d st) =
     setQueryData [''new_solution''] (map_option SolutionV d) (queryClient st) \<and>
   \<not> debugProcessing (onDebugSuccess d st) \<and>
   getQueryData (queryClient (onDebugSuccess (Some sol) st)) [''new_solution''] = Some (SolutionV sol) \<and>
   queryClient (onDebugSuccess None st) = queryClient st \<and>
   getQueryData (queryClient (onDebugSuccess None st)) [''new_solution''] =
     getQueryData (queryClient st) [''new_solution''] \<and>
   is_Debug (Solutions p (onDebugSuccess None st)) =
     (\<not> isResetting st \<and> getQueryData (queryClient st) [''new_solution''] \<noteq> None) \<and>
   queryClient (onSolutionSuccess None st) = queryClient st"
  by (simp add: onDebugSuccess_def onSolutionSuccess_def effect_defs cache_defs Solutions_def Let_def)

text \<open>
  The claim as stated fails where a \<open>new_solution\<close> entry is cached: after a debug-success
  event without payload the entry is still there and the Debug view is still selected.
\<close>

theorem debug_success_undefined_counterexample:
  "getQueryData
     (queryClient (onDebugSuccess None
        (initial (setQueryData [''new_solution'']
           (Some (SolutionV \<lparr>code = js ''x'', thoughts = [], time_complexity = js ''n'',
                              space_complexity = js ''1''\<rparr>))
           Map.empty) solutions)))
     [''new_solution''] =
     Some (SolutionV \<lparr>code = js ''x'', thoughts = [], time_complexity = js ''n'',
                       space_complexity = js ''1''\<rparr>) \<and>
   is_Debug (Solutions \<lparr>credits = 1, currentLanguage = js ''python'', COMMAND_KEY = js ''Ctrl''\<rparr>
     (onDebugSuccess None
        (initial (setQueryData [''new_solution'']
           (Some (SolutionV \<lparr>code = js ''x'', thoughts = [], time_complexity = js ''n'',
                              space_complexity = js ''1''\<rparr>))
           Map.empty) solutions)))"
  by (simp add: onDebugSuccess_def cache_defs Solutions_def Let_def initial_def)

subsection \<open>Deleting a screenshot\<close>

text \<open>
  C7. For an index that has an entry, the delete operation asks the platform to delete
  that entry's path. When the platform answers with success, the only effect is a new
  request for the screenshot list; when it answers without success, or the call
  rejects, the only effect is the error toast. In no case does the click or the
  platform's answer change the local list.
\<close>

theorem delete_refetches_or_toasts:
  assumes "array_get (extraScreenshots st) i = Some s"
  shows "handleDeleteExtraScreenshot i st =
           Inr (st\<lparr>pending := pending st @ [DeleteScreenshot (path s)]\<rparr>) \<and>
         handleDeleteExtraScreenshot_resume (Resolved \<lparr>success = True\<rparr>) st =
           Inr (st\<lparr>pending := pending st @ [GetScreenshots]\<rparr>) \<and>
         handleDeleteExtraScreenshot_resume (Resolved \<lparr>success = False\<rparr>) st =
           Inr (st\<lparr>toasts := toasts st @
                  [\<lparr>title = js ''Error'', message = js ''Failed to delete the screenshot'',
                    variant = toast_error\<rparr>]\<rparr>) \<and>
         handleDeleteExtraScreenshot_resume Rejected st =
           Inr (st\<lparr>toasts := toasts st @
                  [\<lparr>title = js ''Error'', message = js ''Failed to delete the screenshot'',
                    variant = toast_error\<rparr>]\<rparr>) \<and>
         extraScreenshots (step (step st (DeleteClicked i)) (DeleteSettled r)) = extraScreenshots st"
proof -
  have 1: "handleDeleteExtraScreenshot i st =
      Inr (st\<lparr>pending := pending st @ [DeleteScreenshot (path s)]\<rparr>)"
    using assms by (simp add: delete_defs)
  have 2: "extraScreenshots (step (step st (DeleteClicked i)) (DeleteSettled r)) = extraScreenshots st"
    by (simp only: step_delete_settled_keeps step_delete_clicked_keeps)
  have 3: "handleDeleteExtraScreenshot_resume (Resolved \<lparr>success = True\<rparr>) st =
           Inr (st\<lparr>pending := pending st @ [GetScreenshots]\<rparr>)"
    by (simp add: delete_defs effect_defs)
  have 4: "handleDeleteExtraScreenshot_resume (Resolved \<lparr>success = False\<rparr>) st =
           Inr (st\<lparr>toasts := toasts st @
                  [\<lparr>title = js ''Error'', message = js ''Failed to delete the screenshot'',
                    variant = toast_error\<rparr>]\<rparr>)"
    by (simp add: delete_defs effect_defs)
  have 5: "handleDeleteExtraScreenshot_resume Rejected st =
           Inr (st\<lparr>toasts := toasts st @
                  [\<lparr>title = js ''Error'', message = js ''Failed to delete the screenshot'',
                    variant = toast_error\<rparr>]\<rparr>)"
    by (simp add: delete_defs effect_defs)
  from 1 3 4 5 2 show ?thesis by (intro conjI)
qed

theorem delete_refetches_or_toasts_witness:
  "array_get (extraScreenshots ((initial Map.empty solutions)
      \<lparr>extraScreenshots :=
         [\<lparr>id_path = js ''a.png'', path = js ''a.png'', preview = js ''data:'', timestamp = 0\<rparr>]\<rparr>)) 0 =
     Some \<lparr>id_path = js ''a.png'', path = js ''a.png'', preview = js ''data:'', timestamp = 0\<rparr> \<and>
   handleDeleteExtraScreenshot 0 ((initial Map.empty solutions)
      \<lparr>extraScreenshots :=
         [\<lparr>id_path = js ''a.png'', path = js ''a.png'', preview = js ''data:'', timestamp = 0\<rparr>]\<rparr>) =
     Inr ((initial Map.empty solutions)
            \<lparr>extraScreenshots :=
               [\<lparr>id_path = js ''a.png'', path = js ''a.png'', preview = js ''data:'', timestamp = 0\<rparr>],
             pending := [DeleteScreenshot (js ''a.png'')]\<rparr>)"
  (is "array_get (extraScreenshots ?st) 0 = Some ?shot \<and> _")
proof -
  have h: "array_get (extraScreenshots ?st) 0 = Some ?shot"
    by (simp add: array_get_def)
  have "handleDeleteExtraScreenshot 0 ?st =
      Inr (?st\<lparr>pending := pending ?st @ [DeleteScreenshot (path ?shot)]\<rparr>)"
    using delete_refetches_or_toasts [OF h] by (rule conjunct1)
  with h show ?thesis by (simp add: initial_def)
qed

text \<open>
  C10. For every index, the delete operation ends without an exception, before and
  after its \<open>await\<close>, and the state it returns has the screenshot list it started
  with. An index has no entry exactly when it is negative or not below the length of
  the list; then reading the path throws inside the \<open>try\<close>, and the operation's
  whole effect is the error toast.
\<close>

theorem delete_never_throws:
  "\<not> isl (handleDeleteExtraScreenshot i st) \<and>
   \<not> isl (handleDeleteExtraScreenshot_resume r st) \<and>
   extraScreenshots (projr (handleDeleteExtraScreenshot i st)) = extraScreenshots st \<and>
   (array_get (extraScreenshots st) i = None) = (i < 0 \<or> int (length (extraScreenshots st)) \<le> i) \<and>
   (array_get (extraScreenshots st) i = None \<longrightarrow>
      delete_request (array_get (extraScreenshots st) i) st = Inl TypeError \<and>
      handleDeleteExtraScreenshot i st =
        Inr (st\<lparr>toasts := toasts st @
               [\<lparr>title = js ''Error'', message = js ''Failed to delete the screenshot'',
                 variant = toast_error\<rparr>]\<rparr>))"
proof -
  have 1: "\<not> isl (handleDeleteExtraScreenshot i st)"
    by (simp add: delete_defs split: option.splits)
  have 2: "\<not> isl (handleDeleteExtraScreenshot_resume r st)"
    by (cases r) (simp_all add: delete_defs)
  have 3: "extraScreenshots (projr (handleDeleteExtraScreenshot i st)) = extraScreenshots st"
    by (simp add: delete_defs effect_defs split: option.splits)
  have 4: "(array_get (extraScreenshots st) i = None) = (i < 0 \<or> int (length (extraScreenshots st)) \<le> i)"
    by (auto simp: array_get_def)
  have 5: "array_get (extraScreenshots st) i = None \<longrightarrow>
      delete_request (array_get (extraScreenshots st) i) st = Inl TypeError \<and>
      handleDeleteExtraScreenshot i st =
        Inr (st\<lparr>toasts := toasts st @
               [\<lparr>title = js ''Error'', message = js ''Failed to delete the screenshot'',
                 variant = toast_error\<rparr>]\<rparr>)"
    by (simp add: delete_defs effect_defs)
  from 1 2 3 4 5 show ?thesis by (intro conjI)
qed

theorem delete_never_throws_witness:
  "array_get (extraScreenshots (initial Map.empty solutions)) 7 = None \<and>
   handleDeleteExtraScreenshot 7 (initial Map.empty solutions) =
     Inr ((initial Map.empty solutions)
            \<lparr>toasts := [\<lparr>title = js ''Error'', message = js ''Failed to delete the screenshot'',
                         variant = toast_error\<rparr>]\<rparr>)"
proof -
  have h: "array_get (extraScreenshots (initial Map.empty solutions)) 7 = None"
    by (simp add: array_get_def initial_def)
  from delete_never_throws [of 7 "initial Map.empty solutions" Rejected]
  have "array_get (extraScreenshots (initial Map.empty solutions)) 7 = None \<longrightarrow>
      delete_request (array_get (extraScreenshots (initial Map.empty solutions)) 7) (initial Map.empty solutions) = Inl TypeError \<and>
      handleDeleteExtraScreenshot 7 (initial Map.empty solutions) =
        Inr ((initial Map.empty solutions)\<lparr>toasts := toasts (initial Map.empty solutions) @
               [\<lparr>title = js ''Error'', message = js ''Failed to delete the screenshot'',
                 variant = toast_error\<rparr>]\<rparr>)"
    by (rule conjunct2 [OF conjunct2 [OF conjunct2 [OF conjunct2]]])
  with h show ?thesis by (simp add: initial_def)
qed

subsection \<open>The Complexity block\<close>

text \<open>
  What the matcher decides: \<open>regex_test\<close> finds a suffix on which the pattern matches,
  and the pattern of the source matches where the letter, an opening parenthesis, one
  or more code units other than the closing parenthesis, and a closing parenthesis
  follow one another.
\<close>

lemma regex_test_iff: "regex_test r s \<longleftrightarrow> (\<exists>pre t. s = pre @ t \<and> match_here r t)"
proof (induction s)
  case Nil
  then show ?case by simp
next
  case (Cons c cs)
  show ?case
  proof
    assume "regex_test r (c # cs)"
    then consider "match_here r (c # cs)" | "regex_test r cs" by auto
    then show "\<exists>pre t. c # cs = pre @ t \<and> match_here r t"
    proof cases
      case 1
      then have "c # cs = [] @ (c # cs) \<and> match_here r (c # cs)" by simp
      then show ?thesis by blast
    next
      case 2
      with Cons.IH obtain pre t where "cs = pre @ t" "match_here r t" by blast
      then have "c # cs = (c # pre) @ t \<and> match_here r t" by simp
      then show ?thesis by blast
    qed
  next
    assume "\<exists>pre t. c # cs = pre @ t \<and> match_here r t"
    then obtain pre t where pt: "c # cs = pre @ t" "match_here r t" by blast
    show "regex_test r (c # cs)"
    proof (cases pre)
      case Nil
      with pt have "match_here r (c # cs)" by simp
      then show ?thesis by simp
    next
      case (Cons d pre')
      with pt have "cs = pre' @ t" by simp
      with pt Cons.IH have "regex_test r cs" by blast
      then show ?thesis by simp
    qed
  qed
qed

lemma match_close:
  "match_here [(\<lambda>c. c = z, Once)] t \<longleftrightarrow> (\<exists>post. t = z # post)"
  by (cases t) auto

lemma match_body:
  "match_here [(\<lambda>c. c \<noteq> z, OneOrMore), (\<lambda>c. c = z, Once)] t \<longleftrightarrow>
     (\<exists>mid post. t = mid @ z # post \<and> mid \<noteq> [] \<and> z \<notin> set mid)"
proof (induction t)
  case Nil
  then show ?case by simp
next
  case (Cons c cs)
  show ?case
  proof
    assume m: "match_here [(\<lambda>c. c \<noteq> z, OneOrMore), (\<lambda>c. c = z, Once)] (c # cs)"
    then have c: "c \<noteq> z" by simp
    from m consider "match_here [(\<lambda>c. c \<noteq> z, OneOrMore), (\<lambda>c. c = z, Once)] cs"
      | "match_here [(\<lambda>c. c = z, Once)] cs" by auto
    then show "\<exists>mid post. c # cs = mid @ z # post \<and> mid \<noteq> [] \<and> z \<notin> set mid"
    proof cases
      case 1
      with Cons.IH obtain mid post where "cs = mid @ z # post" "z \<notin> set mid" by blast
      with c have "c # cs = (c # mid) @ z # post \<and> c # mid \<noteq> [] \<and> z \<notin> set (c # mid)" by auto
      then show ?thesis by blast
    next
      case 2
      then obtain post where "cs = z # post" by (auto simp: match_close)
      with c have "c # cs = [c] @ z # post \<and> [c] \<noteq> [] \<and> z \<notin> set [c]" by auto
      then show ?thesis by blast
    qed
  next
    assume "\<exists>mid post. c # cs = mid @ z # post \<and> mid \<noteq> [] \<and> z \<notin> set mid"
    then obtain mid post where mp: "c # cs = mid @ z # post" "mid \<noteq> []" "z \<notin> set mid" by blast
    then obtain mid' where mid: "mid = c # mid'" by (cases mid) auto
    with mp have c: "c \<noteq> z" and cs: "cs = mid' @ z # post" and z: "z \<notin> set mid'" by auto
    show "match_here [(\<lambda>c. c \<noteq> z, OneOrMore), (\<lambda>c. c = z, Once)] (c # cs)"
    proof (cases mid')
      case Nil
      with cs c show ?thesis by simp
    next
      case (Cons d ds)
      with cs z Cons.IH have "match_here [(\<lambda>c. c \<noteq> z, OneOrMore), (\<lambda>c. c = z, Once)] cs"
        by blast
      with c show ?thesis by simp
    qed
  qed
qed

lemma match_bigO_iff:
  "match_here bigORegex t \<longleftrightarrow>
     (\<exists>l mid post. t = l # of_char CHR ''('' # mid @ of_char CHR '')'' # post \<and>
        (l = of_char CHR ''O'' \<or> l = of_char CHR ''o'') \<and> mid \<noteq> [] \<and> of_char CHR '')'' \<notin> set mid)"
proof (cases t)
  case Nil
  then show ?thesis by (simp add: bigORegex_def)
next
  case t: (Cons l t1)
  show ?thesis
  proof (cases t1)
    case Nil
    with t show ?thesis by (simp add: bigORegex_def)
  next
    case (Cons p t2)
    have "match_here bigORegex t \<longleftrightarrow>
        (l = of_char CHR ''O'' \<or> l = of_char CHR ''o'') \<and> p = of_char CHR ''('' \<and>
        match_here [(\<lambda>c. c \<noteq> of_char CHR '')'', OneOrMore), (\<lambda>c. c = of_char CHR '')'', Once)] t2"
      unfolding t Cons bigORegex_def by simp
    then show ?thesis
      unfolding match_body t Cons by auto
  qed
qed

lemma regex_test_bigO_iff:
  "regex_test bigORegex s \<longleftrightarrow>
     (\<exists>pre l mid post. s = pre @ l # of_char CHR ''('' # mid @ of_char CHR '')'' # post \<and>
        (l = of_char CHR ''O'' \<or> l = of_char CHR ''o'') \<and> mid \<noteq> [] \<and> of_char CHR '')'' \<notin> set mid)"
  unfolding regex_test_iff match_bigO_iff by blast

lemma trim_Nil_iff: "trim s = [] \<longleftrightarrow> list_all isWhiteSpace s"
proof -
  have "dropWhile isWhiteSpace (rev (dropWhile isWhiteSpace s)) = [] \<longleftrightarrow>
      (\<forall>c \<in> set (dropWhile isWhiteSpace s). isWhiteSpace c)"
    by (simp only: dropWhile_eq_Nil_conv set_rev)
  also have "\<dots> \<longleftrightarrow> dropWhile isWhiteSpace s = []"
  proof
    assume a: "\<forall>c \<in> set (dropWhile isWhiteSpace s). isWhiteSpace c"
    show "dropWhile isWhiteSpace s = []"
    proof (cases "dropWhile isWhiteSpace s")
      case Nil
      then show ?thesis .
    next
      case (Cons c cs)
      then have "\<not> isWhiteSpace c"
        using hd_dropWhile [of isWhiteSpace s] by simp
      with a Cons show ?thesis by simp
    qed
  next
    assume "dropWhile isWhiteSpace s = []"
    then show "\<forall>c \<in> set (dropWhile isWhiteSpace s). isWhiteSpace c"
      by (auto dest: set_dropWhileD)
  qed
  also have "\<dots> \<longleftrightarrow> (\<forall>c \<in> set s. isWhiteSpace c)"
    by (rule dropWhile_eq_Nil_conv)
  finally have "dropWhile isWhiteSpace (rev (dropWhile isWhiteSpace s)) = [] \<longleftrightarrow>
      list_all isWhiteSpace s"
    by (simp only: list_all_iff)
  then show ?thesis
    by (simp only: trim_def rev_is_Nil_conv)
qed

lemma letter_not_space:
  "c = of_char CHR ''O'' \<or> c = of_char CHR ''o'' \<Longrightarrow> \<not> isWhiteSpace c"
  by (auto simp: isWhiteSpace_def)

lemma match_bigO_head:
  "match_here bigORegex (c # cs) \<Longrightarrow> c = of_char CHR ''O'' \<or> c = of_char CHR ''o''"
  by (simp add: bigORegex_def)

lemma match_bigO_Nil: "\<not> match_here bigORegex []"
  by (simp add: bigORegex_def)

text \<open>A string with a match holds the letter, so it is not blank.\<close>

lemma test_bigO_letter:
  "regex_test bigORegex s \<Longrightarrow> \<not> list_all isWhiteSpace s"
proof (induction s)
  case Nil
  then show ?case by (simp add: match_bigO_Nil)
next
  case (Cons c cs)
  then show ?case
    using match_bigO_head [of c cs] letter_not_space [of c] by auto
qed

lemma test_bigO_not_blank: "regex_test bigORegex s \<Longrightarrow> s \<noteq> [] \<and> trim s \<noteq> []"
  using test_bigO_letter [of s] by (auto simp: trim_Nil_iff)

text \<open>
  C8, as amended. A complexity string in which the pattern matches is displayed as it
  is. A string without a match that is not blank (not empty and not made of white space
  only) is displayed wrapped once, as \<open>O(\<close>, the string, \<open>)\<close>. A blank string is
  displayed as \<open>N/A\<close>. The block shows the two formatted strings.
\<close>

theorem formatComplexity_wraps_once:
  "(regex_test bigORegex s \<longrightarrow> formatComplexity (Some s) = s) \<and>
   (\<not> regex_test bigORegex s \<and> trim s \<noteq> [] \<longrightarrow> formatComplexity (Some s) = js ''O('' @ s @ js '')'') \<and>
   (trim s = [] \<longrightarrow> formatComplexity (Some s) = js ''N/A'') \<and>
   ComplexitySection (Some t) (Some u) False = TimeSpace (formatComplexity (Some t)) (formatComplexity (Some u))"
  using test_bigO_not_blank [of s]
  by (auto simp: formatComplexity_def ComplexitySection_def trim_def)

theorem formatComplexity_wraps_once_witness:
  "regex_test bigORegex (js ''O(n)'') \<and> formatComplexity (Some (js ''O(n)'')) = js ''O(n)'' \<and>
   \<not> regex_test bigORegex (js ''n log n'') \<and> trim (js ''n log n'') \<noteq> [] \<and>
   formatComplexity (Some (js ''n log n'')) = js ''O(n log n)'' \<and>
   trim (js ''  '') = [] \<and> formatComplexity (Some (js ''  '')) = js ''N/A''"
proof -
  have a: "regex_test bigORegex (js ''O(n)'')"
    by (simp add: js_def bigORegex_def)
  have b: "\<not> regex_test bigORegex (js ''n log n'')"
    by (simp add: js_def bigORegex_def)
  have c: "trim (js ''n log n'') \<noteq> []"
    by (simp add: js_def trim_def isWhiteSpace_def)
  have d: "js ''O('' @ js ''n log n'' @ js '')'' = js ''O(n log n)''"
    by (simp add: js_def)
  have e: "trim (js ''  '') = []"
    by (simp add: js_def trim_def isWhiteSpace_def)
  from a b c d e formatComplexity_wraps_once [of "js ''O(n)''"]
    formatComplexity_wraps_once [of "js ''n log n''"]
    formatComplexity_wraps_once [of "js ''  ''"]
  show ?thesis by simp
qed

text \<open>
  The claim as stated fails on a string of one space: it is not empty, the pattern
  does not match in it, and it is displayed as \<open>N/A\<close>, not wrapped.
\<close>

theorem blank_complexity_counterexample:
  "js '' '' \<noteq> [] \<and> \<not> regex_test bigORegex (js '' '') \<and>
   formatComplexity (Some (js '' '')) = js ''N/A'' \<and>
   formatComplexity (Some (js '' '')) \<noteq> js ''O('' @ js '' '' @ js '')''"
  by (simp add: js_def bigORegex_def formatComplexity_def trim_def isWhiteSpace_def)

end
